theory Spec2Isabelle
  imports Main "HOL-Library.AList"
begin

section \<open>JavaScript values handled by the library\<close>

text \<open>
  The library is glue between a schema validator (zod) and a React state cell, so the
  values it touches are arbitrary JavaScript values: action inputs, handler results and
  whatever a handler or a callback throws. Objects are lists of own properties, each with
  its enumerable flag (an \<^verbatim>\<open>Error\<close> keeps its \<^verbatim>\<open>message\<close> as an own,
  non-enumerable property). Of a zod issue only the two fields the hook reads are kept;
  a path element is a property name or an array position. Numbers are integers: nothing
  here depends on floating point. Accessor properties and prototypes are left out; a
  \<^verbatim>\<open>message\<close> that JavaScript finds through a getter or a prototype is only read by
  the hook, as an own non-enumerable property is, and is written as one.
\<close>

datatype path_elem = Key string | Idx nat

record zod_issue =
  path :: "path_elem list"
  message :: string

datatype jsval =
    JUndefined
  | JNull
  | JBool bool
  | JNum int
  | JStr string
  | JArr "jsval list"
  | JObj "(string \<times> bool \<times> jsval) list"

text \<open>
  Anything can be thrown. The hook tells a \<^verbatim>\<open>ZodError\<close> instance from every
  other value, so a thrown value is one or the other.
\<close>

datatype thrown = ZodError "zod_issue list" | Value jsval

text \<open>A call either throws or returns.\<close>

datatype 'r call_outcome = Throw thrown | Return 'r

text \<open>
  A promise is modelled by its fate: it is fulfilled with a value, rejected with a reason,
  or it never settles.
\<close>

datatype promise = Fulfilled jsval | Rejected thrown | Pending

section \<open>The validation contract\<close>

text \<open>
  \<^verbatim>\<open>z.ZodType\<close> belongs to the zod library. The builder uses one method of it,
  \<^verbatim>\<open>safeParse\<close>, so a contract is that method: it returns
  \<^verbatim>\<open>{success: true, data}\<close> or \<^verbatim>\<open>{success: false, error}\<close> with
  \<^verbatim>\<open>error\<close> a ZodError carrying the issues, or it throws (zod does so for a schema
  with asynchronous refinements).
\<close>

datatype safe_parse_result =
    ParseSuccess jsval
  | ParseFailure "zod_issue list"
  | ParseThrows thrown

datatype zod_type = ZodType (safeParse: "jsval \<Rightarrow> safe_parse_result")

section \<open>The builder: class SafeAction\<close>

text \<open>
  Builders are objects with identity, so they live in a store: an address is a position in
  the list of allocated objects, and \<^verbatim>\<open>new\<close> appends. The only field is
  \<^verbatim>\<open>_schema\<close>, \<^verbatim>\<open>null\<close> (here \<open>None\<close>) unless the constructor got a schema.
  A reference held by the program is always an address below the length of the store.
\<close>

record SafeAction =
  priv_schema :: "zod_type option"

type_synonym addr = nat
type_synonym heap = "SafeAction list"

text \<open>
  \<^verbatim>\<open>private _schema: S | null = null;
  constructor(schema?: S) { if (schema) { this._schema = schema; } }\<close>
  A schema is an object, hence truthy: the test fails only for a missing argument.
\<close>

definition SafeAction_new :: "zod_type option \<Rightarrow> heap \<Rightarrow> addr \<times> heap" where
  "SafeAction_new sch h =
     (let this = length h;
          obj = \<lparr>priv_schema = None\<rparr>;
          obj' = (case sch of Some s \<Rightarrow> obj\<lparr>priv_schema := Some s\<rparr> | None \<Rightarrow> obj)
      in (this, h @ [obj']))"

text \<open>\<^verbatim>\<open>schema(schema) { return new SafeAction(schema); }\<close>: the receiver is not read.\<close>

definition schema :: "addr \<Rightarrow> zod_type \<Rightarrow> heap \<Rightarrow> addr \<times> heap" where
  "schema this s2 h = SafeAction_new (Some s2) h"

text \<open>
  \<^verbatim>\<open>action(fn)\<close> returns either \<^verbatim>\<open>fn\<close> itself or an arrow function closed over
  \<^verbatim>\<open>this\<close> and \<^verbatim>\<open>fn\<close>. The closure reads \<^verbatim>\<open>this._schema\<close> again when it is
  called, so it holds the builder's address, not the schema.
\<close>

datatype 'r action_fn =
    Validating addr "jsval \<Rightarrow> 'r call_outcome"
  | Direct "jsval \<Rightarrow> 'r call_outcome"

definition action :: "addr \<Rightarrow> (jsval \<Rightarrow> 'r call_outcome) \<Rightarrow> heap \<Rightarrow> 'r action_fn" where
  "action this fn h =
     (case priv_schema (h ! this) of
        Some _ \<Rightarrow> Validating this fn
      | None \<Rightarrow> Direct fn)"

text \<open>
  Calling the action. The result is the outcome of the call together with the list of
  arguments the handler \<^verbatim>\<open>fn\<close> was called with, in order. In the closure,
  \<^verbatim>\<open>validationResult?.success\<close> is \<^verbatim>\<open>undefined\<close> when \<^verbatim>\<open>_schema\<close> is
  \<^verbatim>\<open>null\<close>, and then \<^verbatim>\<open>undefined\<close> is thrown.
\<close>

definition call_action :: "'r action_fn \<Rightarrow> jsval \<Rightarrow> heap \<Rightarrow> jsval list \<times> 'r call_outcome" where
  "call_action act data h =
     (case act of
        Direct fn \<Rightarrow> ([data], fn data)
      | Validating this fn \<Rightarrow>
          (case priv_schema (h ! this) of
             None \<Rightarrow> ([], Throw (Value JUndefined))
           | Some s \<Rightarrow>
               (case safeParse s data of
                  ParseThrows e \<Rightarrow> ([], Throw e)
                | ParseFailure issues \<Rightarrow> ([], Throw (ZodError issues))
                | ParseSuccess parsed \<Rightarrow> ([data], fn data))))"

subsection \<open>The builder's own operations on the store\<close>

text \<open>
  The class has two operations that touch the store, the constructor and
  \<^verbatim>\<open>schema\<close>; \<^verbatim>\<open>action\<close> and the actions it returns only read it. A program that
  uses the class through its interface therefore moves the store by a sequence of these.
\<close>

datatype builder_op = New "zod_type option" | Schema addr zod_type

fun apply_op :: "builder_op \<Rightarrow> heap \<Rightarrow> heap" where
  "apply_op (New sch) h = snd (SafeAction_new sch h)"
| "apply_op (Schema this s2) h = snd (schema this s2 h)"

definition run_ops :: "builder_op list \<Rightarrow> heap \<Rightarrow> heap" where
  "run_ops ops h = fold apply_op ops h"

section \<open>The hook: useAction\<close>

datatype invocation_status = Idle | Executing | Error | Success

text \<open>
  \<^verbatim>\<open>const errors = { request: {}, validation: {} }\<close>: \<^verbatim>\<open>validation\<close> stays a
  plain object whose values are the issues' messages, \<^verbatim>\<open>request\<close> may become any
  value. The properties of an object are listed in the order they were added; what is
  proved below reads objects as maps, by \<open>map_of\<close>, and does not depend on that order.
\<close>

record normalized_error =
  request :: jsval
  validation :: "(string \<times> string) list"

record error_response =
  error :: normalized_error
  input :: jsval

text \<open>\<^verbatim>\<open>ActionPropsCallback\<close> of types.ts: both callbacks are optional.\<close>

record callbacks =
  onSuccess :: "(jsval \<Rightarrow> unit call_outcome) option"
  onError :: "(error_response \<Rightarrow> unit call_outcome) option"

text \<open>
  The state of one hook instance is the \<^verbatim>\<open>status\<close> cell of \<^verbatim>\<open>useState\<close>.
  Next to it the model keeps the history of what the hook did (status writes and callback
  calls, in order), which the code does not store, so that the order of effects can be
  stated.
\<close>

datatype event =
    StatusSet invocation_status
  | SuccessCallback jsval
  | ErrorCallback error_response

record hook_state =
  status :: invocation_status
  trace :: "event list"

definition initial_state :: hook_state where
  "initial_state = \<lparr>status = Idle, trace = []\<rparr>"

definition setStatus :: "invocation_status \<Rightarrow> hook_state \<Rightarrow> hook_state" where
  "setStatus s st = st\<lparr>status := s, trace := trace st @ [StatusSet s]\<rparr>"

definition reset :: "hook_state \<Rightarrow> hook_state" where
  "reset st = setStatus Idle st"

subsection \<open>Normalizing a caught failure\<close>

text \<open>
  Decimal digits of an array position, as \<^verbatim>\<open>join\<close> prints a number (array
  positions stay far below the size where JavaScript switches to exponent notation).
\<close>

fun show_nat :: "nat \<Rightarrow> string" where
  "show_nat n =
     (if n < 10 then [''0123456789'' ! n]
      else show_nat (n div 10) @ [''0123456789'' ! (n mod 10)])"

declare show_nat.simps [simp del]

fun path_elem_str :: "path_elem \<Rightarrow> string" where
  "path_elem_str (Key k) = k"
| "path_elem_str (Idx n) = show_nat n"

text \<open>\<^verbatim>\<open>Array.prototype.join\<close> on strings.\<close>

fun join :: "string list \<Rightarrow> string \<Rightarrow> string" where
  "join [] sep = []"
| "join [x] sep = x"
| "join (x # y # ys) sep = x @ sep @ join (y # ys) sep"

text \<open>\<^verbatim>\<open>issue.path.join(".")\<close>\<close>

definition dotted_path :: "zod_issue \<Rightarrow> string" where
  "dotted_path issue = join (map path_elem_str (path issue)) ''.''"

text \<open>
  \<^verbatim>\<open>obj[k] = v\<close> on an object made by the literal \<^verbatim>\<open>{}\<close>, with \<open>v\<close> a string:
  the property is overwritten where it exists and added at the end otherwise. The key
  \<^verbatim>\<open>__proto__\<close> is the exception: the assignment reaches the setter inherited from
  \<^verbatim>\<open>Object.prototype\<close>, which ignores a value that is neither an object nor null,
  so no property is created.
\<close>

definition assign :: "string \<Rightarrow> string \<Rightarrow> (string \<times> string) list \<Rightarrow> (string \<times> string) list" where
  "assign k v obj = (if k = ''__proto__'' then obj else AList.update k v obj)"

text \<open>JavaScript truthiness.\<close>

fun truthy :: "jsval \<Rightarrow> bool" where
  "truthy JUndefined = False"
| "truthy JNull = False"
| "truthy (JBool b) = b"
| "truthy (JNum n) = (n \<noteq> 0)"
| "truthy (JStr s) = (s \<noteq> [])"
| "truthy (JArr xs) = True"
| "truthy (JObj ps) = True"

text \<open>
  \<^verbatim>\<open>error?.message\<close>: \<^verbatim>\<open>undefined\<close> on \<^verbatim>\<open>undefined\<close> and \<^verbatim>\<open>null\<close>
  by the optional chaining, \<^verbatim>\<open>undefined\<close> on a primitive or an array since none has
  such a property, the own property of an object.
\<close>

fun optional_message :: "jsval \<Rightarrow> jsval" where
  "optional_message (JObj ps) =
     (case map_of ps ''message'' of Some (en, v) \<Rightarrow> v | None \<Rightarrow> JUndefined)"
| "optional_message v = JUndefined"

text \<open>
  The own enumerable properties that the spread \<^verbatim>\<open>...error\<close> copies, in order: of an
  object its enumerable properties, of an array or a string its positions, of any other
  primitive nothing.
\<close>

fun own_enumerable :: "jsval \<Rightarrow> (string \<times> jsval) list" where
  "own_enumerable (JObj ps) = map (\<lambda>(k, en, v). (k, v)) (filter (\<lambda>(k, en, v). en) ps)"
| "own_enumerable (JArr xs) = map (\<lambda>i. (show_nat i, xs ! i)) [0..<length xs]"
| "own_enumerable (JStr s) = map (\<lambda>i. (show_nat i, JStr [s ! i])) [0..<length s]"
| "own_enumerable v = []"

text \<open>
  \<^verbatim>\<open>{ message: error.message, ...error }\<close>: a fresh object whose first property is
  \<^verbatim>\<open>message\<close>; every copied property is enumerable, and one named \<^verbatim>\<open>message\<close>
  replaces the value already there.
\<close>

definition message_and_spread :: "jsval \<Rightarrow> jsval" where
  "message_and_spread err =
     JObj (fold (\<lambda>(k, v). AList.update k (True, v)) (own_enumerable err)
             [(''message'', True, optional_message err)])"

text \<open>The first half of the \<^verbatim>\<open>catch\<close> block: building \<^verbatim>\<open>errors\<close>.\<close>

definition normalize :: "thrown \<Rightarrow> normalized_error" where
  "normalize err =
     (let errors = \<lparr>request = JObj [], validation = []\<rparr>
      in case err of
           ZodError issues \<Rightarrow>
             errors\<lparr>validation :=
               fold (\<lambda>issue v. assign (dotted_path issue) (message issue) v) issues
                 (validation errors)\<rparr>
         | Value e \<Rightarrow>
             errors\<lparr>request :=
               (if truthy (optional_message e) then message_and_spread e else e)\<rparr>)"

subsection \<open>execute\<close>

text \<open>
  \<^verbatim>\<open>callback?.onSuccess?.(res)\<close> and \<^verbatim>\<open>callback?.onError?.({error, input})\<close>:
  nothing happens when the options object or the callback is missing; a call is recorded
  in the history and may throw.
\<close>

definition call_onSuccess ::
  "callbacks option \<Rightarrow> jsval \<Rightarrow> hook_state \<Rightarrow> hook_state \<times> unit call_outcome" where
  "call_onSuccess callback res st =
     (case callback of
        None \<Rightarrow> (st, Return ())
      | Some cb \<Rightarrow>
          (case onSuccess cb of
             None \<Rightarrow> (st, Return ())
           | Some f \<Rightarrow> (st\<lparr>trace := trace st @ [SuccessCallback res]\<rparr>, f res)))"

definition call_onError ::
  "callbacks option \<Rightarrow> error_response \<Rightarrow> hook_state \<Rightarrow> hook_state \<times> unit call_outcome" where
  "call_onError callback resp st =
     (case callback of
        None \<Rightarrow> (st, Return ())
      | Some cb \<Rightarrow>
          (case onError cb of
             None \<Rightarrow> (st, Return ())
           | Some f \<Rightarrow> (st\<lparr>trace := trace st @ [ErrorCallback resp]\<rparr>, f resp)))"

text \<open>
  The \<^verbatim>\<open>catch\<close> block. It is the last handler of the async function: what
  \<^verbatim>\<open>onError\<close> throws rejects the promise that \<^verbatim>\<open>execute\<close> returned, and
  \<^verbatim>\<open>setStatus("error")\<close> is not reached. Otherwise the function ends and its
  promise is fulfilled with \<^verbatim>\<open>undefined\<close>.
\<close>

definition catch_block ::
  "callbacks option \<Rightarrow> jsval \<Rightarrow> thrown \<Rightarrow> hook_state \<Rightarrow> hook_state \<times> promise" where
  "catch_block callback payload err st =
     (let errors = normalize err
      in case call_onError callback \<lparr>error = errors, input = payload\<rparr> st of
           (st', Throw e) \<Rightarrow> (st', Rejected e)
         | (st', Return u) \<Rightarrow> (setStatus Error st', Fulfilled JUndefined))"

text \<open>The rest of the \<^verbatim>\<open>try\<close> block, once the awaited promise is fulfilled.\<close>

definition after_await ::
  "callbacks option \<Rightarrow> jsval \<Rightarrow> jsval \<Rightarrow> hook_state \<Rightarrow> hook_state \<times> promise" where
  "after_await callback payload res st =
     (case call_onSuccess callback res st of
        (st', Throw e) \<Rightarrow> catch_block callback payload e st'
      | (st', Return u) \<Rightarrow> (setStatus Success st', Fulfilled JUndefined))"

text \<open>
  \<^verbatim>\<open>execute\<close> is an async function, so it runs in two parts. The first part runs
  inside the call: it sets the status and calls the action. If the action throws, the
  \<^verbatim>\<open>catch\<close> block runs at once and the function is finished (\<open>Inl\<close> the fate of
  its promise); otherwise it is suspended on the promise the action returned (\<open>Inr\<close>).
\<close>

definition execute_begin ::
  "(jsval \<Rightarrow> promise call_outcome) \<Rightarrow> callbacks option \<Rightarrow> jsval \<Rightarrow> hook_state
     \<Rightarrow> hook_state \<times> (promise + promise)" where
  "execute_begin action_fn callback payload st =
     (let st1 = setStatus Executing st
      in case action_fn payload of
           Throw e \<Rightarrow>
             (case catch_block callback payload e st1 of (st2, r) \<Rightarrow> (st2, Inl r))
         | Return p \<Rightarrow> (st1, Inr p))"

text \<open>
  The second part runs when the awaited promise settles, on the state of the hook at that
  time. For a promise that never settles it never runs.
\<close>

definition execute_resume ::
  "callbacks option \<Rightarrow> jsval \<Rightarrow> promise \<Rightarrow> hook_state \<Rightarrow> hook_state \<times> promise" where
  "execute_resume callback payload p st =
     (case p of
        Fulfilled res \<Rightarrow> after_await callback payload res st
      | Rejected e \<Rightarrow> catch_block callback payload e st
      | Pending \<Rightarrow> (st, Pending))"

text \<open>
  One call of \<^verbatim>\<open>execute\<close> with nothing else touching the hook while it is
  suspended: the final state and the fate of the promise it returned.
\<close>

definition execute ::
  "(jsval \<Rightarrow> promise call_outcome) \<Rightarrow> callbacks option \<Rightarrow> jsval \<Rightarrow> hook_state
     \<Rightarrow> hook_state \<times> promise" where
  "execute action_fn callback payload st =
     (case execute_begin action_fn callback payload st of
        (st', Inl r) \<Rightarrow> (st', r)
      | (st', Inr p) \<Rightarrow> execute_resume callback payload p st')"

text \<open>
  What a render of the hook hands to the component, next to \<^verbatim>\<open>execute\<close> and
  \<^verbatim>\<open>reset\<close>: \<^verbatim>\<open>{ status, loading: status === "executing" }\<close>.
\<close>

record hook_view =
  view_status :: invocation_status
  loading :: bool

definition useAction :: "hook_state \<Rightarrow> hook_view" where
  "useAction st = \<lparr>view_status = status st, loading = (status st = Executing)\<rparr>"

section \<open>Example contracts and handlers\<close>

text \<open>
  Stand-ins for zod schemas, used to run the definitions on concrete inputs.
  \<open>min8\<close> behaves as \<^verbatim>\<open>z.string().min(8)\<close>, \<open>with_default\<close> as
  \<^verbatim>\<open>z.string().default("anon")\<close>, which parses \<^verbatim>\<open>undefined\<close> to the default.
\<close>

definition min8 :: zod_type where
  "min8 = ZodType (\<lambda>v. case v of
       JStr s \<Rightarrow> if 8 \<le> length s then ParseSuccess (JStr s)
                 else ParseFailure [\<lparr>path = [], message = ''too short''\<rparr>]
     | _ \<Rightarrow> ParseFailure [\<lparr>path = [], message = ''expected string''\<rparr>])"

definition with_default :: zod_type where
  "with_default = ZodType (\<lambda>v. case v of
       JUndefined \<Rightarrow> ParseSuccess (JStr ''anon'')
     | JStr s \<Rightarrow> ParseSuccess (JStr s)
     | _ \<Rightarrow> ParseFailure [\<lparr>path = [], message = ''expected string''\<rparr>])"

text \<open>An async handler that resolves with its argument.\<close>

definition echo :: "jsval \<Rightarrow> promise call_outcome" where
  "echo data = Return (Fulfilled data)"

text \<open>
  \<^verbatim>\<open>const base = new SafeAction()\<close> at address 0, then
  \<^verbatim>\<open>base.schema(min8)\<close> at address 1 and \<^verbatim>\<open>base.schema(with_default)\<close> at
  address 2.
\<close>

definition base_heap :: heap where
  "base_heap = snd (SafeAction_new None [])"

definition derived_heap :: heap where
  "derived_heap = snd (schema 0 with_default (snd (schema 0 min8 base_heap)))"

text \<open>
  Options objects for the hook: callbacks that return, an \<^verbatim>\<open>onError\<close> that throws,
  an \<^verbatim>\<open>onSuccess\<close> that throws a ZodError (as one that re-parses the result with
  \<^verbatim>\<open>schema.parse\<close> does), and one where both callbacks throw.
\<close>

definition quiet_callbacks :: callbacks where
  "quiet_callbacks = \<lparr>onSuccess = Some (\<lambda>d. Return ()), onError = Some (\<lambda>r. Return ())\<rparr>"

definition throwing_onError :: callbacks where
  "throwing_onError =
     \<lparr>onSuccess = None, onError = Some (\<lambda>r. Throw (Value (JStr ''logger down'')))\<rparr>"

definition throwing_onSuccess :: callbacks where
  "throwing_onSuccess =
     \<lparr>onSuccess = Some (\<lambda>d. Throw (ZodError [\<lparr>path = [Key ''id''], message = ''Required''\<rparr>])),
      onError = Some (\<lambda>r. Return ())\<rparr>"

definition throwing_both :: callbacks where
  "throwing_both =
     \<lparr>onSuccess = Some (\<lambda>d. Throw (Value (JStr ''render failed''))),
      onError = Some (\<lambda>r. Throw (Value (JStr ''logger down'')))\<rparr>"

text \<open>An async handler whose promise is rejected with \<^verbatim>\<open>new Error("boom")\<close>.\<close>

definition failing :: "jsval \<Rightarrow> promise call_outcome" where
  "failing data = Return (Rejected (Value (JObj [(''message'', False, JStr ''boom'')])))"

text \<open>
  The action \<^verbatim>\<open>base.schema(min8).action(echo)\<close> as the hook calls it, on the store
  above.
\<close>

definition guarded_echo :: "jsval \<Rightarrow> promise call_outcome" where
  "guarded_echo data = snd (call_action (action 1 echo derived_heap) data derived_heap)"

section \<open>Properties of the builder\<close>

lemma base_heap_eval: "base_heap = [\<lparr>priv_schema = None\<rparr>]"
  by (simp add: base_heap_def SafeAction_new_def)

lemma derived_heap_eval:
  "derived_heap =
     [\<lparr>priv_schema = None\<rparr>, \<lparr>priv_schema = Some min8\<rparr>, \<lparr>priv_schema = Some with_default\<rparr>]"
  by (simp add: derived_heap_def base_heap_eval schema_def SafeAction_new_def)

text \<open>Both store operations allocate and touch nothing that exists.\<close>

lemma apply_op_appends: "\<exists>obj. apply_op op h = h @ [obj]"
  by (cases op) (simp_all add: schema_def SafeAction_new_def Let_def)

lemma run_ops_extends: "\<exists>objs. run_ops ops h = h @ objs"
proof (induction ops arbitrary: h)
  case Nil
  show ?case by (simp add: run_ops_def)
next
  case (Cons op ops)
  obtain obj where o: "apply_op op h = h @ [obj]"
    using apply_op_appends by blast
  obtain objs where "run_ops ops (h @ [obj]) = (h @ [obj]) @ objs"
    using Cons.IH by blast
  with o show ?case by (simp add: run_ops_def)
qed

lemma run_ops_keeps: "a < length h \<Longrightarrow> run_ops ops h ! a = h ! a"
proof -
  assume a: "a < length h"
  obtain objs where "run_ops ops h = h @ objs"
    using run_ops_extends by blast
  with a show ?thesis by (simp add: nth_append)
qed

text \<open>
  C1, as the code has it. When the builder at \<open>this\<close> holds a contract that accepts
  the input, the action calls the handler exactly once and returns what the handler
  returned (its promise, or what it threw), also after any number of later builder
  operations. The handler receives the input as the caller gave it, whatever value the
  contract parsed it to.
\<close>

theorem action_accepting_calls_handler_with_input:
  assumes "this < length h" and "priv_schema (h ! this) = Some s"
    and "safeParse s data = ParseSuccess parsed"
  shows "call_action (action this fn h) data (run_ops ops h) = ([data], fn data)"
  using assms by (simp add: action_def call_action_def run_ops_keeps)

theorem action_accepting_calls_handler_with_input_witness:
  "2 < length derived_heap \<and> priv_schema (derived_heap ! 2) = Some with_default
   \<and> safeParse with_default JUndefined = ParseSuccess (JStr ''anon'')
   \<and> call_action (action 2 echo derived_heap) JUndefined (run_ops [New None] derived_heap)
       = ([JUndefined], Return (Fulfilled JUndefined))"
proof -
  have a: "2 < length derived_heap" by (simp add: derived_heap_eval)
  have b: "priv_schema (derived_heap ! 2) = Some with_default" by (simp add: derived_heap_eval)
  have c: "safeParse with_default JUndefined = ParseSuccess (JStr ''anon'')"
    by (simp add: with_default_def)
  note t = action_accepting_calls_handler_with_input [OF a b c, of echo "[New None]"]
  show ?thesis using a b c t unfolding echo_def by blast
qed

text \<open>
  C1 as stated fails: with a contract that parses \<^verbatim>\<open>undefined\<close> to its default
  \<^verbatim>\<open>"anon"\<close>, the handler is not called with the parsed value.
\<close>

theorem handler_gets_parsed_value_counterexample:
  "priv_schema (derived_heap ! 2) = Some with_default
   \<and> safeParse with_default JUndefined = ParseSuccess (JStr ''anon'')
   \<and> fst (call_action (action 2 echo derived_heap) JUndefined derived_heap) \<noteq> [JStr ''anon'']"
  by (simp add: derived_heap_eval with_default_def action_def call_action_def)

text \<open>
  C2. When the builder at \<open>this\<close> holds a contract that rejects the input, the action
  never calls the handler and throws, inside the call itself, a ZodError carrying exactly
  the issues the contract reported: the outcome is a \<open>Throw\<close>, not a returned promise
  that is rejected later.
\<close>

theorem action_rejecting_throws_validation_failure:
  assumes "this < length h" and "priv_schema (h ! this) = Some s"
    and "safeParse s data = ParseFailure issues"
  shows "call_action (action this fn h) data (run_ops ops h) = ([], Throw (ZodError issues))"
  using assms by (simp add: action_def call_action_def run_ops_keeps)

theorem action_rejecting_throws_validation_failure_witness:
  "1 < length derived_heap \<and> priv_schema (derived_heap ! 1) = Some min8
   \<and> safeParse min8 (JStr ''short'') = ParseFailure [\<lparr>path = [], message = ''too short''\<rparr>]
   \<and> call_action (action 1 echo derived_heap) (JStr ''short'') (run_ops [] derived_heap)
       = ([], Throw (ZodError [\<lparr>path = [], message = ''too short''\<rparr>]))"
proof -
  have a: "1 < length derived_heap" by (simp add: derived_heap_eval)
  have b: "priv_schema (derived_heap ! 1) = Some min8" by (simp add: derived_heap_eval)
  have c: "safeParse min8 (JStr ''short'') = ParseFailure [\<lparr>path = [], message = ''too short''\<rparr>]"
    by (simp add: min8_def)
  note t = action_rejecting_throws_validation_failure [OF a b c, of echo "[]"]
  show ?thesis using a b c t by blast
qed

text \<open>
  C5. When the builder at \<open>this\<close> holds no contract, \<^verbatim>\<open>action\<close> returns the handler
  itself: a call passes the input unchanged to the handler, exactly once, and its outcome
  is the handler's outcome, so nothing is thrown that the handler did not throw.
\<close>

theorem action_without_contract_forwards:
  assumes "this < length h" and "priv_schema (h ! this) = None"
  shows "action this fn h = Direct fn
    \<and> call_action (action this fn h) data (run_ops ops h) = ([data], fn data)"
  using assms by (simp add: action_def call_action_def)

theorem action_without_contract_forwards_witness:
  "0 < length base_heap \<and> priv_schema (base_heap ! 0) = None
   \<and> action 0 echo base_heap = Direct echo
   \<and> call_action (action 0 echo base_heap) (JNum 7) (run_ops [Schema 0 min8] base_heap)
       = ([JNum 7], Return (Fulfilled (JNum 7)))"
proof -
  have a: "0 < length base_heap" by (simp add: base_heap_eval)
  have b: "priv_schema (base_heap ! 0) = None" by (simp add: base_heap_eval)
  note t = action_without_contract_forwards [OF a b, of echo "JNum 7" "[Schema 0 min8]"]
  show ?thesis using a b t unfolding echo_def by blast
qed

text \<open>
  C10. \<^verbatim>\<open>schema\<close> called on the builder at \<open>this\<close> returns the address of a newly
  allocated builder, different from the receiver, bound to the given contract; the
  receiver and every other builder \<open>a\<close> allocated before are as they were, after this
  call and after any sequence of builder operations, so the base builder can be used
  again. An action built from \<open>a\<close> behaves on every later store as on the store it was
  built on.
\<close>

theorem schema_returns_independent_builder:
  assumes "this < length h" and "a < length h"
  shows "fst (schema this s2 h) = length h
    \<and> fst (schema this s2 h) \<noteq> this
    \<and> priv_schema (snd (schema this s2 h) ! fst (schema this s2 h)) = Some s2
    \<and> snd (schema this s2 h) ! a = h ! a
    \<and> run_ops ops h ! a = h ! a
    \<and> call_action (action a fn h) data (run_ops ops h) = call_action (action a fn h) data h"
proof -
  have k: "run_ops ops h ! a = h ! a"
    using assms(2) by (rule run_ops_keeps)
  have c: "call_action (action a fn h) data (run_ops ops h) = call_action (action a fn h) data h"
    by (simp add: call_action_def action_def k split: option.splits)
  from assms k c show ?thesis
    by (simp add: schema_def SafeAction_new_def nth_append)
qed

theorem schema_returns_independent_builder_witness:
  "0 < length base_heap
   \<and> fst (schema 0 min8 base_heap) = length base_heap
   \<and> fst (schema 0 min8 base_heap) \<noteq> 0
   \<and> priv_schema (snd (schema 0 min8 base_heap) ! fst (schema 0 min8 base_heap)) = Some min8
   \<and> snd (schema 0 min8 base_heap) ! 0 = base_heap ! 0
   \<and> run_ops [Schema 0 min8, Schema 0 with_default] base_heap ! 0 = base_heap ! 0
   \<and> call_action (action 0 echo base_heap) (JStr ''x'')
        (run_ops [Schema 0 min8, Schema 0 with_default] base_heap)
      = call_action (action 0 echo base_heap) (JStr ''x'') base_heap"
proof -
  have a: "0 < length base_heap" by (simp add: base_heap_eval)
  note t = schema_returns_independent_builder
    [OF a a, of min8 "[Schema 0 min8, Schema 0 with_default]" echo "JStr ''x''"]
  show ?thesis using a t by blast
qed

section \<open>Properties of the normalized error\<close>

lemma assign_lookup:
  "map_of (assign k v obj) k' =
     (if k = ''__proto__'' then map_of obj k' else ((map_of obj)(k \<mapsto> v)) k')"
  by (simp add: assign_def update_conv')

lemma assign_keys:
  "fst ` set (assign k v obj) = fst ` set obj \<union> ({k} - {''__proto__''})"
  by (auto simp: assign_def dom_update)

lemma assign_distinct:
  "distinct (map fst obj) \<Longrightarrow> distinct (map fst (assign k v obj))"
  by (simp add: assign_def distinct_update)

lemma validation_fold_lookup:
  "map_of (fold (\<lambda>issue v. assign (dotted_path issue) (message issue) v) issues acc) k =
     (if k = ''__proto__'' then map_of acc k
      else case map_of (rev (map (\<lambda>i. (dotted_path i, message i)) issues)) k of
             Some m \<Rightarrow> Some m
           | None \<Rightarrow> map_of acc k)"
proof (induction issues arbitrary: acc)
  case Nil
  show ?case by simp
next
  case (Cons i issues)
  show ?case
    by (simp add: Cons.IH assign_lookup map_add_def split: option.splits)
qed

lemma validation_fold_keys:
  "fst ` set (fold (\<lambda>issue v. assign (dotted_path issue) (message issue) v) issues acc) =
     fst ` set acc \<union> (dotted_path ` set issues - {''__proto__''})"
  by (induction issues arbitrary: acc) (auto simp: assign_keys)

lemma validation_fold_distinct:
  "distinct (map fst acc) \<Longrightarrow>
   distinct (map fst (fold (\<lambda>issue v. assign (dotted_path issue) (message issue) v) issues acc))"
  by (induction issues arbitrary: acc) (simp_all add: assign_distinct)

lemma validation_length:
  "length (validation (normalize (ZodError issues))) = card (dotted_path ` set issues - {''__proto__''})"
proof -
  let ?V = "fold (\<lambda>issue v. assign (dotted_path issue) (message issue) v) issues []"
  have d: "distinct (map fst ?V)" by (rule validation_fold_distinct) simp
  have "length ?V = length (map fst ?V)" by simp
  also have "\<dots> = card (set (map fst ?V))" using d by (simp only: distinct_card)
  also have "\<dots> = card (dotted_path ` set issues - {''__proto__''})"
    using validation_fold_keys [of issues "[]"] by simp
  finally show ?thesis by (simp add: normalize_def)
qed

lemma spread_lookup:
  "map_of (fold (\<lambda>(k, v). AList.update k (True, v)) xs acc) k =
     (case map_of (rev xs) k of Some v \<Rightarrow> Some (True, v) | None \<Rightarrow> map_of acc k)"
proof (induction xs arbitrary: acc)
  case Nil
  show ?case by simp
next
  case (Cons x xs)
  show ?case
    by (cases x) (simp add: Cons.IH update_conv' map_add_def split: option.splits)
qed

lemma map_of_rev_distinct: "distinct (map fst xs) \<Longrightarrow> map_of (rev xs) = map_of xs"
  by (subst map_of_inject_set) (simp_all add: rev_map [symmetric])

lemma own_enumerable_lookup:
  "distinct (map fst ps) \<Longrightarrow>
   map_of (own_enumerable (JObj ps)) k =
     (case map_of ps k of Some (en, v) \<Rightarrow> if en then Some v else None | None \<Rightarrow> None)"
proof (induction ps)
  case Nil
  show ?case by simp
next
  case (Cons p ps)
  obtain k' en v where p: "p = (k', en, v)" by (cases p)
  from Cons.prems p have "k' \<notin> fst ` set ps" by simp
  then have n: "map_of ps k' = None" by (simp add: map_of_eq_None_iff)
  from Cons p n show ?case by (auto split: option.splits)
qed

lemma own_enumerable_distinct:
  "distinct (map fst ps) \<Longrightarrow> distinct (map fst (own_enumerable (JObj ps)))"
proof (induction ps)
  case Nil
  show ?case by simp
next
  case (Cons p ps)
  then show ?case by (cases p) (auto simp: image_iff)
qed

lemma truthy_message_is_object:
  "truthy (optional_message e) \<Longrightarrow> \<exists>ps. e = JObj ps"
  by (cases e) simp_all

lemma message_and_spread_lookup:
  assumes "distinct (map fst ps)"
  shows "\<exists>qs. message_and_spread (JObj ps) = JObj qs \<and>
     (\<forall>k. map_of qs k =
        (if k = ''message'' then Some (True, optional_message (JObj ps))
         else case map_of ps k of
                Some (en, v) \<Rightarrow> if en then Some (True, v) else None
              | None \<Rightarrow> None))"
proof -
  let ?qs = "fold (\<lambda>(k, v). AList.update k (True, v)) (own_enumerable (JObj ps))
               [(''message'', True, optional_message (JObj ps))]"
  have r: "map_of (rev (own_enumerable (JObj ps))) = map_of (own_enumerable (JObj ps))"
    using assms by (intro map_of_rev_distinct own_enumerable_distinct)
  have "map_of ?qs k =
        (if k = ''message'' then Some (True, optional_message (JObj ps))
         else case map_of ps k of
                Some (en, v) \<Rightarrow> if en then Some (True, v) else None
              | None \<Rightarrow> None)" for k
    unfolding spread_lookup r own_enumerable_lookup [OF assms]
    by (auto split: option.splits)
  then show ?thesis unfolding message_and_spread_def by blast
qed

text \<open>
  C3, as the code has it. At most one of the two sides is filled. A ZodError leaves
  \<^verbatim>\<open>request\<close> the empty object and gives \<^verbatim>\<open>validation\<close> one entry for each
  distinct dotted path among its issues, the path \<^verbatim>\<open>__proto__\<close> left out, holding
  the message of the last issue with that path. Any other failure \<open>e\<close> leaves
  \<^verbatim>\<open>validation\<close> empty; \<^verbatim>\<open>request\<close> is \<open>e\<close> itself unless \<open>e\<close> has a truthy
  \<^verbatim>\<open>message\<close>, which only an object has, and then it is a new object with that
  \<^verbatim>\<open>message\<close> and exactly the enumerable properties of \<open>e\<close> (stated for an object
  whose property names are distinct, as they are in JavaScript).
\<close>

theorem normalize_fills_at_most_one_side:
  "(validation (normalize err) = [] \<or> request (normalize err) = JObj [])
   \<and> request (normalize (ZodError issues)) = JObj []
   \<and> map_of (validation (normalize (ZodError issues))) k =
       (if k = ''__proto__'' then None
        else map_of (rev (map (\<lambda>i. (dotted_path i, message i)) issues)) k)
   \<and> length (validation (normalize (ZodError issues))) =
       card (dotted_path ` set issues - {''__proto__''})
   \<and> validation (normalize (Value e)) = []
   \<and> request (normalize (Value e)) =
       (if truthy (optional_message e) then message_and_spread e else e)
   \<and> (truthy (optional_message e) \<longrightarrow> (\<exists>ps. e = JObj ps))
   \<and> (distinct (map fst ps) \<longrightarrow>
        (\<exists>qs. message_and_spread (JObj ps) = JObj qs \<and>
          (\<forall>k. map_of qs k =
            (if k = ''message'' then Some (True, optional_message (JObj ps))
             else case map_of ps k of
                    Some (en, v) \<Rightarrow> if en then Some (True, v) else None
                  | None \<Rightarrow> None))))"
proof -
  have 1: "validation (normalize err) = [] \<or> request (normalize err) = JObj []"
    by (cases err) (simp_all add: normalize_def)
  have 2: "request (normalize (ZodError issues)) = JObj []"
    by (simp add: normalize_def)
  have 3: "map_of (validation (normalize (ZodError issues))) k =
       (if k = ''__proto__'' then None
        else map_of (rev (map (\<lambda>i. (dotted_path i, message i)) issues)) k)"
    by (simp add: normalize_def validation_fold_lookup split: option.splits)
  have 4: "length (validation (normalize (ZodError issues))) =
       card (dotted_path ` set issues - {''__proto__''})"
    by (rule validation_length)
  have 5: "validation (normalize (Value e)) = []"
    by (simp add: normalize_def)
  have 6: "request (normalize (Value e)) =
       (if truthy (optional_message e) then message_and_spread e else e)"
    by (simp add: normalize_def)
  have 7: "truthy (optional_message e) \<longrightarrow> (\<exists>ps. e = JObj ps)"
    using truthy_message_is_object by blast
  have 8: "distinct (map fst ps) \<longrightarrow>
        (\<exists>qs. message_and_spread (JObj ps) = JObj qs \<and>
          (\<forall>k. map_of qs k =
            (if k = ''message'' then Some (True, optional_message (JObj ps))
             else case map_of ps k of
                    Some (en, v) \<Rightarrow> if en then Some (True, v) else None
                  | None \<Rightarrow> None)))"
    using message_and_spread_lookup by blast
  from 1 2 3 4 5 6 7 8 show ?thesis by blast
qed

theorem normalize_fills_at_most_one_side_witness:
  "normalize (ZodError [\<lparr>path = [Key ''email''], message = ''Invalid email''\<rparr>,
                        \<lparr>path = [Key ''items'', Idx 0, Key ''name''], message = ''Required''\<rparr>])
     = \<lparr>request = JObj [],
        validation = [(''email'', ''Invalid email''), (''items.0.name'', ''Required'')]\<rparr>
   \<and> truthy (optional_message (JObj [(''message'', False, JStr ''boom''), (''code'', True, JNum 500)]))
   \<and> distinct (map fst [(''message'', False, JStr ''boom''), (''code'', True, JNum 500)])
   \<and> normalize (Value (JObj [(''message'', False, JStr ''boom''), (''code'', True, JNum 500)]))
     = \<lparr>request = JObj [(''message'', True, JStr ''boom''), (''code'', True, JNum 500)],
        validation = []\<rparr>
   \<and> (\<exists>qs. message_and_spread (JObj [(''message'', False, JStr ''boom''), (''code'', True, JNum 500)])
              = JObj qs
          \<and> map_of qs ''message'' = Some (True, JStr ''boom'')
          \<and> map_of qs ''code'' = Some (True, JNum 500))"
proof -
  let ?ps = "[(''message'', False, JStr ''boom''), (''code'', True, JNum 500)]"
  have d: "distinct (map fst ?ps)" by simp
  have tr: "truthy (optional_message (JObj ?ps))" by simp
  have z: "normalize (ZodError [\<lparr>path = [Key ''email''], message = ''Invalid email''\<rparr>,
                        \<lparr>path = [Key ''items'', Idx 0, Key ''name''], message = ''Required''\<rparr>])
     = \<lparr>request = JObj [],
        validation = [(''email'', ''Invalid email''), (''items.0.name'', ''Required'')]\<rparr>"
    by (simp add: normalize_def assign_def dotted_path_def show_nat.simps)
  have v: "normalize (Value (JObj ?ps))
     = \<lparr>request = JObj [(''message'', True, JStr ''boom''), (''code'', True, JNum 500)],
        validation = []\<rparr>"
    by (simp add: normalize_def message_and_spread_def)
  note t = normalize_fills_at_most_one_side [of "Value (JObj ?ps)" "[]" "''code''" "JObj ?ps" ?ps]
  from t d obtain qs where q: "message_and_spread (JObj ?ps) = JObj qs"
    and m: "\<forall>k. map_of qs k =
            (if k = ''message'' then Some (True, optional_message (JObj ?ps))
             else case map_of ?ps k of
                    Some (en, v) \<Rightarrow> if en then Some (True, v) else None
                  | None \<Rightarrow> None)"
    by blast
  from m have "map_of qs ''message'' = Some (True, JStr ''boom'')"
    and "map_of qs ''code'' = Some (True, JNum 500)"
    by simp_all
  with q z v d tr show ?thesis by blast
qed

text \<open>
  C3 as stated fails twice: a thrown \<^verbatim>\<open>{}\<close> fills neither side, and two issues on
  the same path (two failed rules of one field) leave one entry, with the later message.
\<close>

theorem exactly_one_side_counterexample:
  "normalize (Value (JObj [])) = \<lparr>request = JObj [], validation = []\<rparr>
   \<and> normalize (ZodError [\<lparr>path = [Key ''password''], message = ''too short''\<rparr>,
                          \<lparr>path = [Key ''password''], message = ''needs a digit''\<rparr>])
     = \<lparr>request = JObj [], validation = [(''password'', ''needs a digit'')]\<rparr>"
  by (simp add: normalize_def assign_def dotted_path_def)

section \<open>Properties of execute\<close>

lemma call_onError_status: "status (fst (call_onError callback resp st)) = status st"
  by (simp add: call_onError_def split: option.splits)

lemma call_onSuccess_status: "status (fst (call_onSuccess callback res st)) = status st"
  by (simp add: call_onSuccess_def split: option.splits)

lemma call_onError_trace:
  "trace (fst (call_onError callback resp st)) =
     trace st @ (case callback of None \<Rightarrow> []
                 | Some cb \<Rightarrow> (case onError cb of None \<Rightarrow> [] | Some f \<Rightarrow> [ErrorCallback resp]))"
  by (simp add: call_onError_def split: option.splits)

lemma call_onSuccess_trace:
  "trace (fst (call_onSuccess callback res st)) =
     trace st @ (case callback of None \<Rightarrow> []
                 | Some cb \<Rightarrow> (case onSuccess cb of None \<Rightarrow> [] | Some f \<Rightarrow> [SuccessCallback res]))"
  by (simp add: call_onSuccess_def split: option.splits)

lemma catch_block_returns:
  assumes "snd (call_onError callback \<lparr>error = normalize e, input = payload\<rparr> st) = Return ()"
  shows "catch_block callback payload e st =
     (setStatus Error (fst (call_onError callback \<lparr>error = normalize e, input = payload\<rparr> st)),
      Fulfilled JUndefined)"
proof -
  obtain st' r where c: "call_onError callback \<lparr>error = normalize e, input = payload\<rparr> st = (st', r)"
    by (cases "call_onError callback \<lparr>error = normalize e, input = payload\<rparr> st")
  with assms have "r = Return ()" by simp
  with c show ?thesis by (simp add: catch_block_def)
qed

lemma catch_block_throws:
  assumes "snd (call_onError callback \<lparr>error = normalize e, input = payload\<rparr> st) = Throw x"
  shows "catch_block callback payload e st =
     (fst (call_onError callback \<lparr>error = normalize e, input = payload\<rparr> st), Rejected x)"
proof -
  obtain st' r where c: "call_onError callback \<lparr>error = normalize e, input = payload\<rparr> st = (st', r)"
    by (cases "call_onError callback \<lparr>error = normalize e, input = payload\<rparr> st")
  with assms have "r = Throw x" by simp
  with c show ?thesis by (simp add: catch_block_def)
qed

lemma after_await_returns:
  assumes "snd (call_onSuccess callback res st) = Return ()"
  shows "after_await callback payload res st =
     (setStatus Success (fst (call_onSuccess callback res st)), Fulfilled JUndefined)"
proof -
  obtain st' r where c: "call_onSuccess callback res st = (st', r)"
    by (cases "call_onSuccess callback res st")
  with assms have "r = Return ()" by simp
  with c show ?thesis by (simp add: after_await_def)
qed

lemma after_await_throws:
  assumes "snd (call_onSuccess callback res st) = Throw e"
  shows "after_await callback payload res st =
     catch_block callback payload e (fst (call_onSuccess callback res st))"
proof -
  obtain st' r where c: "call_onSuccess callback res st = (st', r)"
    by (cases "call_onSuccess callback res st")
  with assms have "r = Throw e" by simp
  with c show ?thesis by (simp add: after_await_def)
qed

lemma execute_unfold:
  "execute action_fn callback payload st =
     (case action_fn payload of
        Throw e \<Rightarrow> catch_block callback payload e (setStatus Executing st)
      | Return p \<Rightarrow> execute_resume callback payload p (setStatus Executing st))"
  by (simp add: execute_def execute_begin_def split: call_outcome.splits prod.splits)

lemma execute_failure:
  assumes "action_fn payload = Throw e \<or> action_fn payload = Return (Rejected e)"
  shows "execute action_fn callback payload st =
     catch_block callback payload e (setStatus Executing st)"
  using assms by (auto simp: execute_unfold execute_resume_def)

lemma execute_fulfilled:
  assumes "action_fn payload = Return (Fulfilled res)"
  shows "execute action_fn callback payload st =
     after_await callback payload res (setStatus Executing st)"
  using assms by (simp add: execute_unfold execute_resume_def)

lemma execute_pending:
  assumes "action_fn payload = Return Pending"
  shows "execute action_fn callback payload st = (setStatus Executing st, Pending)"
  using assms by (simp add: execute_unfold execute_resume_def)

lemma outcome_cases:
  obtains e where "action_fn payload = Throw e \<or> action_fn payload = Return (Rejected e)"
  | res where "action_fn payload = Return (Fulfilled res)"
  | "action_fn payload = Return Pending"
proof (cases "action_fn payload")
  case (Throw e)
  then show ?thesis using that(1) by blast
next
  case (Return p)
  then show ?thesis using that by (cases p) auto
qed

lemma unit_outcome_cases:
  fixes r :: "unit call_outcome"
  obtains "r = Return ()" | e where "r = Throw e"
  by (cases r) auto

text \<open>
  C4, as the code has it. When the \<^verbatim>\<open>onError\<close> callback, if there is one, does
  not throw, the promise returned by \<^verbatim>\<open>execute\<close> is never rejected: it is
  fulfilled with \<^verbatim>\<open>undefined\<close>, or it stays pending with the action's promise. A
  failure of the action, thrown inside the call (as a validation failure is) or delivered
  as a rejection, is normalized and handed to \<^verbatim>\<open>onError\<close> with the input, and the
  status is then set to \<^verbatim>\<open>error\<close>.
\<close>

theorem execute_never_rejects:
  assumes nothrow: "\<And>resp s. snd (call_onError callback resp s) = Return ()"
  shows "(snd (execute action_fn callback payload st) = Fulfilled JUndefined
          \<or> snd (execute action_fn callback payload st) = Pending)
    \<and> (action_fn payload = Throw e \<or> action_fn payload = Return (Rejected e) \<longrightarrow>
         execute action_fn callback payload st =
           (setStatus Error
              (fst (call_onError callback \<lparr>error = normalize e, input = payload\<rparr>
                      (setStatus Executing st))),
            Fulfilled JUndefined))"
proof -
  have c: "catch_block callback payload x s =
      (setStatus Error (fst (call_onError callback \<lparr>error = normalize x, input = payload\<rparr> s)),
       Fulfilled JUndefined)" for x s
    by (rule catch_block_returns) (rule nothrow)
  have a: "snd (after_await callback payload res s) = Fulfilled JUndefined" for res s
    by (rule unit_outcome_cases [of "snd (call_onSuccess callback res s)"])
       (simp_all add: after_await_returns after_await_throws c)
  have 1: "snd (execute action_fn callback payload st) = Fulfilled JUndefined
          \<or> snd (execute action_fn callback payload st) = Pending"
    by (rule outcome_cases [of action_fn payload])
       (simp_all add: execute_failure execute_fulfilled execute_pending c a)
  have 2: "action_fn payload = Throw e \<or> action_fn payload = Return (Rejected e) \<longrightarrow>
         execute action_fn callback payload st =
           (setStatus Error
              (fst (call_onError callback \<lparr>error = normalize e, input = payload\<rparr>
                      (setStatus Executing st))),
            Fulfilled JUndefined)"
    by (simp add: execute_failure c)
  from 1 2 show ?thesis by blast
qed


lemma guarded_echo_short:
  "guarded_echo (JStr ''short'') = Throw (ZodError [\<lparr>path = [], message = ''too short''\<rparr>])"
  by (simp add: guarded_echo_def derived_heap_eval action_def call_action_def min8_def)

theorem execute_never_rejects_witness:
  "(\<forall>resp s. snd (call_onError (Some quiet_callbacks) resp s) = Return ())
   \<and> guarded_echo (JStr ''short'') = Throw (ZodError [\<lparr>path = [], message = ''too short''\<rparr>])
   \<and> execute guarded_echo (Some quiet_callbacks) (JStr ''short'') initial_state =
       (\<lparr>status = Error,
         trace = [StatusSet Executing,
                  ErrorCallback \<lparr>error = \<lparr>request = JObj [], validation = [([], ''too short'')]\<rparr>,
                                 input = JStr ''short''\<rparr>,
                  StatusSet Error]\<rparr>,
        Fulfilled JUndefined)"
proof -
  let ?e = "ZodError [\<lparr>path = [], message = ''too short''\<rparr>]"
  have n: "snd (call_onError (Some quiet_callbacks) resp s) = Return ()" for resp s
    by (simp add: call_onError_def quiet_callbacks_def)
  have f: "guarded_echo (JStr ''short'') = Throw ?e"
    by (rule guarded_echo_short)
  note t = execute_never_rejects [of "Some quiet_callbacks" guarded_echo "JStr ''short''"
      initial_state ?e, OF n]
  from t f have "execute guarded_echo (Some quiet_callbacks) (JStr ''short'') initial_state =
      (setStatus Error
         (fst (call_onError (Some quiet_callbacks)
                 \<lparr>error = normalize ?e, input = JStr ''short''\<rparr>
                 (setStatus Executing initial_state))),
       Fulfilled JUndefined)"
    by blast
  then have "execute guarded_echo (Some quiet_callbacks) (JStr ''short'') initial_state =
       (\<lparr>status = Error,
         trace = [StatusSet Executing,
                  ErrorCallback \<lparr>error = \<lparr>request = JObj [], validation = [([], ''too short'')]\<rparr>,
                                 input = JStr ''short''\<rparr>,
                  StatusSet Error]\<rparr>,
        Fulfilled JUndefined)"
    by (simp add: setStatus_def call_onError_def quiet_callbacks_def initial_state_def
          normalize_def assign_def dotted_path_def)
  with n f show ?thesis by blast
qed

text \<open>
  C4 as stated fails: an \<^verbatim>\<open>onError\<close> that throws, here on a validation failure,
  rejects the promise that \<^verbatim>\<open>execute\<close> returned.
\<close>

theorem execute_rejects_counterexample:
  "guarded_echo (JStr ''short'') = Throw (ZodError [\<lparr>path = [], message = ''too short''\<rparr>])
   \<and> snd (execute guarded_echo (Some throwing_onError) (JStr ''short'') initial_state)
       = Rejected (Value (JStr ''logger down''))"
  by (simp add: guarded_echo_short execute_unfold catch_block_def call_onError_def
        throwing_onError_def)

lemma setStatus_simps:
  "status (setStatus x st) = x" "trace (setStatus x st) = trace st @ [StatusSet x]"
  by (simp_all add: setStatus_def)

lemma catch_block_trace: "\<exists>evs. trace (fst (catch_block callback payload e st)) = trace st @ evs"
  by (rule unit_outcome_cases
        [of "snd (call_onError callback \<lparr>error = normalize e, input = payload\<rparr> st)"])
     (simp_all add: catch_block_returns catch_block_throws setStatus_simps call_onError_trace)

lemma after_await_trace: "\<exists>evs. trace (fst (after_await callback payload res st)) = trace st @ evs"
proof (rule unit_outcome_cases [of "snd (call_onSuccess callback res st)"])
  assume "snd (call_onSuccess callback res st) = Return ()"
  then show ?thesis
    by (simp add: after_await_returns setStatus_simps call_onSuccess_trace)
next
  fix e
  assume t: "snd (call_onSuccess callback res st) = Throw e"
  obtain evs where "trace (fst (catch_block callback payload e (fst (call_onSuccess callback res st))))
      = trace (fst (call_onSuccess callback res st)) @ evs"
    using catch_block_trace by blast
  with t show ?thesis
    by (simp add: after_await_throws call_onSuccess_trace)
qed

lemma execute_trace:
  "\<exists>rest. trace (fst (execute action_fn callback payload st)) = trace st @ StatusSet Executing # rest"
proof (rule outcome_cases [of action_fn payload])
  fix e
  assume f: "action_fn payload = Throw e \<or> action_fn payload = Return (Rejected e)"
  obtain evs where "trace (fst (catch_block callback payload e (setStatus Executing st)))
      = trace (setStatus Executing st) @ evs"
    using catch_block_trace by blast
  with f show ?thesis by (simp add: execute_failure setStatus_simps)
next
  fix res
  assume f: "action_fn payload = Return (Fulfilled res)"
  obtain evs where "trace (fst (after_await callback payload res (setStatus Executing st)))
      = trace (setStatus Executing st) @ evs"
    using after_await_trace by blast
  with f show ?thesis by (simp add: execute_fulfilled setStatus_simps)
next
  assume "action_fn payload = Return Pending"
  then show ?thesis by (simp add: execute_pending setStatus_simps)
qed

text \<open>
  C6, as the code has it. From every state \<^verbatim>\<open>execute\<close> first writes
  \<^verbatim>\<open>executing\<close>. When the action throws or its promise settles, and \<^verbatim>\<open>onError\<close>
  does not throw, the final status is \<^verbatim>\<open>success\<close> or \<^verbatim>\<open>error\<close>: it is
  \<^verbatim>\<open>success\<close> exactly when the promise was fulfilled and \<^verbatim>\<open>onSuccess\<close>
  returned, and then \<^verbatim>\<open>onSuccess\<close> was called with the resolved value before the
  status was written. The same holds for the resumed part alone, on whatever state \<open>s\<close>
  the hook is in when the promise settles.
\<close>

theorem execute_lands_on_success_or_error:
  assumes nothrow: "\<And>resp s. snd (call_onError callback resp s) = Return ()"
    and settles: "action_fn payload \<noteq> Return Pending"
  shows "(\<exists>rest. trace (fst (execute action_fn callback payload st))
                  = trace st @ StatusSet Executing # rest)
    \<and> (status (fst (execute action_fn callback payload st)) = Success
        \<or> status (fst (execute action_fn callback payload st)) = Error)
    \<and> (status (fst (execute action_fn callback payload st)) = Success) =
        (\<exists>res. action_fn payload = Return (Fulfilled res)
           \<and> snd (call_onSuccess callback res (setStatus Executing st)) = Return ())
    \<and> (action_fn payload = Return (Fulfilled res)
        \<and> snd (call_onSuccess callback res (setStatus Executing st)) = Return () \<longrightarrow>
          execute action_fn callback payload st =
            (setStatus Success (fst (call_onSuccess callback res (setStatus Executing st))),
             Fulfilled JUndefined))
    \<and> (p \<noteq> Pending \<longrightarrow>
          status (fst (execute_resume callback payload p s)) = Success
          \<or> status (fst (execute_resume callback payload p s)) = Error)"
proof -
  have c: "catch_block callback payload x t =
      (setStatus Error (fst (call_onError callback \<lparr>error = normalize x, input = payload\<rparr> t)),
       Fulfilled JUndefined)" for x t
    by (rule catch_block_returns) (rule nothrow)
  have a: "status (fst (after_await callback payload r t)) =
      (if snd (call_onSuccess callback r t) = Return () then Success else Error)" for r t
    by (rule unit_outcome_cases [of "snd (call_onSuccess callback r t)"])
       (simp_all add: after_await_returns after_await_throws c setStatus_simps)
  have 1: "\<exists>rest. trace (fst (execute action_fn callback payload st))
                  = trace st @ StatusSet Executing # rest"
    by (rule execute_trace)
  have 3: "(status (fst (execute action_fn callback payload st)) = Success) =
        (\<exists>res. action_fn payload = Return (Fulfilled res)
           \<and> snd (call_onSuccess callback res (setStatus Executing st)) = Return ())"
    using settles
    by (rule_tac outcome_cases [of action_fn payload])
       (auto simp: execute_failure execute_fulfilled c a setStatus_simps)
  have 2: "status (fst (execute action_fn callback payload st)) = Success
        \<or> status (fst (execute action_fn callback payload st)) = Error"
    using settles
    by (rule_tac outcome_cases [of action_fn payload])
       (auto simp: execute_failure execute_fulfilled c a setStatus_simps)
  have 4: "action_fn payload = Return (Fulfilled res)
        \<and> snd (call_onSuccess callback res (setStatus Executing st)) = Return () \<longrightarrow>
          execute action_fn callback payload st =
            (setStatus Success (fst (call_onSuccess callback res (setStatus Executing st))),
             Fulfilled JUndefined)"
    by (simp add: execute_fulfilled after_await_returns)
  have 5: "p \<noteq> Pending \<longrightarrow>
          status (fst (execute_resume callback payload p s)) = Success
          \<or> status (fst (execute_resume callback payload p s)) = Error"
    by (cases p) (simp_all add: execute_resume_def a c setStatus_simps)
  from 1 2 3 4 5 show ?thesis by blast
qed

theorem execute_lands_on_success_or_error_witness:
  "(\<forall>resp s. snd (call_onError (Some quiet_callbacks) resp s) = Return ())
   \<and> echo (JNum 1) \<noteq> Return Pending
   \<and> echo (JNum 1) = Return (Fulfilled (JNum 1))
   \<and> snd (call_onSuccess (Some quiet_callbacks) (JNum 1) (setStatus Executing initial_state))
       = Return ()
   \<and> status (fst (execute echo (Some quiet_callbacks) (JNum 1) initial_state)) = Success
   \<and> execute echo (Some quiet_callbacks) (JNum 1) initial_state =
       (\<lparr>status = Success,
         trace = [StatusSet Executing, SuccessCallback (JNum 1), StatusSet Success]\<rparr>,
        Fulfilled JUndefined)
   \<and> Rejected (Value JNull) \<noteq> Pending
   \<and> (status (fst (execute_resume (Some quiet_callbacks) (JNum 1) (Rejected (Value JNull))
                      (reset initial_state))) = Success
       \<or> status (fst (execute_resume (Some quiet_callbacks) (JNum 1) (Rejected (Value JNull))
                      (reset initial_state))) = Error)"
proof -
  have n: "snd (call_onError (Some quiet_callbacks) resp s) = Return ()" for resp s
    by (simp add: call_onError_def quiet_callbacks_def)
  have p: "echo (JNum 1) \<noteq> Return Pending" by (simp add: echo_def)
  have f: "echo (JNum 1) = Return (Fulfilled (JNum 1))" by (simp add: echo_def)
  have c: "snd (call_onSuccess (Some quiet_callbacks) (JNum 1) (setStatus Executing initial_state))
       = Return ()"
    by (simp add: call_onSuccess_def quiet_callbacks_def)
  have q: "Rejected (Value JNull) \<noteq> Pending" by simp
  note t = execute_lands_on_success_or_error [of "Some quiet_callbacks" echo "JNum 1"
      initial_state "JNum 1" "Rejected (Value JNull)" "reset initial_state", OF n p]
  from t f c have s: "status (fst (execute echo (Some quiet_callbacks) (JNum 1) initial_state)) = Success"
    by blast
  from t f c have "execute echo (Some quiet_callbacks) (JNum 1) initial_state =
      (setStatus Success
         (fst (call_onSuccess (Some quiet_callbacks) (JNum 1) (setStatus Executing initial_state))),
       Fulfilled JUndefined)"
    by blast
  then have e: "execute echo (Some quiet_callbacks) (JNum 1) initial_state =
       (\<lparr>status = Success,
         trace = [StatusSet Executing, SuccessCallback (JNum 1), StatusSet Success]\<rparr>,
        Fulfilled JUndefined)"
    by (simp add: setStatus_def call_onSuccess_def quiet_callbacks_def initial_state_def)
  from t q have r: "status (fst (execute_resume (Some quiet_callbacks) (JNum 1) (Rejected (Value JNull))
                      (reset initial_state))) = Success
       \<or> status (fst (execute_resume (Some quiet_callbacks) (JNum 1) (Rejected (Value JNull))
                      (reset initial_state))) = Error"
    by blast
  from n p f c s e q r show ?thesis by blast
qed

text \<open>
  C6 as stated fails: the action's promise is rejected, \<^verbatim>\<open>onError\<close> throws, and the
  status stays \<^verbatim>\<open>executing\<close>.
\<close>

theorem stuck_in_executing_counterexample:
  "failing JNull = Return (Rejected (Value (JObj [(''message'', False, JStr ''boom'')])))
   \<and> status (fst (execute failing (Some throwing_onError) JNull initial_state)) = Executing"
  by (simp add: failing_def execute_unfold execute_resume_def catch_block_def call_onError_def
        throwing_onError_def setStatus_def initial_state_def)

text \<open>
  C7, as the code has it. When the action's promise is fulfilled and \<^verbatim>\<open>onSuccess\<close>
  throws \<open>e\<close>, \<^verbatim>\<open>execute\<close> catches it: \<open>e\<close> is normalized as any failure is
  (into \<^verbatim>\<open>request\<close>, unless it is a ZodError, which goes to \<^verbatim>\<open>validation\<close>),
  \<^verbatim>\<open>onError\<close>, when supplied, is called with it and the input, and, when that call
  returns, the status ends as \<^verbatim>\<open>error\<close> and the promise of \<^verbatim>\<open>execute\<close> is
  fulfilled.
\<close>

theorem onSuccess_throw_is_caught:
  assumes "action_fn payload = Return (Fulfilled res)"
    and "callback = Some cb" and "onSuccess cb = Some f" and "f res = Throw e"
    and "\<And>g. onError cb = Some g \<Longrightarrow> g \<lparr>error = normalize e, input = payload\<rparr> = Return ()"
  shows "execute action_fn callback payload st =
      (\<lparr>status = Error,
        trace = trace st @ [StatusSet Executing, SuccessCallback res]
          @ (case onError cb of
               None \<Rightarrow> []
             | Some g \<Rightarrow> [ErrorCallback \<lparr>error = normalize e, input = payload\<rparr>])
          @ [StatusSet Error]\<rparr>,
       Fulfilled JUndefined)
    \<and> (case e of
         Value v \<Rightarrow>
           validation (normalize e) = []
           \<and> request (normalize e) =
               (if truthy (optional_message v) then message_and_spread v else v)
       | ZodError issues \<Rightarrow> request (normalize e) = JObj [])"
proof -
  have s: "call_onSuccess callback res (setStatus Executing st) =
      (\<lparr>status = Executing, trace = trace st @ [StatusSet Executing, SuccessCallback res]\<rparr>, Throw e)"
    using assms(2-4) by (simp add: call_onSuccess_def setStatus_def)
  have 1: "execute action_fn callback payload st =
      (\<lparr>status = Error,
        trace = trace st @ [StatusSet Executing, SuccessCallback res]
          @ (case onError cb of
               None \<Rightarrow> []
             | Some g \<Rightarrow> [ErrorCallback \<lparr>error = normalize e, input = payload\<rparr>])
          @ [StatusSet Error]\<rparr>,
       Fulfilled JUndefined)"
  proof -
    let ?st1 = "\<lparr>status = Executing, trace = trace st @ [StatusSet Executing, SuccessCallback res]\<rparr>"
    have "execute action_fn callback payload st = catch_block callback payload e ?st1"
      using assms(1) by (simp add: execute_fulfilled after_await_def s)
    also have "\<dots> =
      (\<lparr>status = Error,
        trace = trace st @ [StatusSet Executing, SuccessCallback res]
          @ (case onError cb of
               None \<Rightarrow> []
             | Some g \<Rightarrow> [ErrorCallback \<lparr>error = normalize e, input = payload\<rparr>])
          @ [StatusSet Error]\<rparr>,
       Fulfilled JUndefined)"
      using assms(2,5)
      by (cases "onError cb") (simp_all add: catch_block_def call_onError_def setStatus_def)
    finally show ?thesis .
  qed
  have 2: "case e of
         Value v \<Rightarrow>
           validation (normalize e) = []
           \<and> request (normalize e) =
               (if truthy (optional_message v) then message_and_spread v else v)
       | ZodError issues \<Rightarrow> request (normalize e) = JObj []"
    by (cases e) (simp_all add: normalize_def)
  from 1 2 show ?thesis by blast
qed

theorem onSuccess_throw_is_caught_witness:
  "echo (JNum 1) = Return (Fulfilled (JNum 1))
   \<and> onSuccess throwing_onSuccess =
       Some (\<lambda>d. Throw (ZodError [\<lparr>path = [Key ''id''], message = ''Required''\<rparr>]))
   \<and> onError throwing_onSuccess = Some (\<lambda>r. Return ())
   \<and> execute echo (Some throwing_onSuccess) (JNum 1) initial_state =
       (\<lparr>status = Error,
         trace = [StatusSet Executing, SuccessCallback (JNum 1),
                  ErrorCallback \<lparr>error = \<lparr>request = JObj [], validation = [(''id'', ''Required'')]\<rparr>,
                                 input = JNum 1\<rparr>,
                  StatusSet Error]\<rparr>,
        Fulfilled JUndefined)"
proof -
  let ?e = "ZodError [\<lparr>path = [Key ''id''], message = ''Required''\<rparr>]"
  have a: "echo (JNum 1) = Return (Fulfilled (JNum 1))" by (simp add: echo_def)
  have b: "onSuccess throwing_onSuccess = Some (\<lambda>d. Throw ?e)"
    by (simp add: throwing_onSuccess_def)
  have d: "g \<lparr>error = normalize ?e, input = JNum 1\<rparr> = Return ()"
    if "onError throwing_onSuccess = Some g" for g
    using that by (auto simp: throwing_onSuccess_def)
  have t: "execute echo (Some throwing_onSuccess) (JNum 1) initial_state =
      (\<lparr>status = Error,
        trace = trace initial_state @ [StatusSet Executing, SuccessCallback (JNum 1)]
          @ (case onError throwing_onSuccess of
               None \<Rightarrow> []
             | Some g \<Rightarrow> [ErrorCallback \<lparr>error = normalize ?e, input = JNum 1\<rparr>])
          @ [StatusSet Error]\<rparr>,
       Fulfilled JUndefined)
    \<and> (case ?e of
         Value v \<Rightarrow>
           validation (normalize ?e) = []
           \<and> request (normalize ?e) =
               (if truthy (optional_message v) then message_and_spread v else v)
       | ZodError issues \<Rightarrow> request (normalize ?e) = JObj [])"
  proof (rule onSuccess_throw_is_caught [where cb = throwing_onSuccess and f = "\<lambda>d. Throw ?e"])
    show "echo (JNum 1) = Return (Fulfilled (JNum 1))" by (rule a)
    show "Some throwing_onSuccess = Some throwing_onSuccess" by (rule refl)
    show "onSuccess throwing_onSuccess = Some (\<lambda>d. Throw ?e)" by (rule b)
    show "(\<lambda>d. Throw ?e) (JNum 1) = (Throw ?e :: unit call_outcome)" by simp
    show "g \<lparr>error = normalize ?e, input = JNum 1\<rparr> = Return ()"
      if "onError throwing_onSuccess = Some g" for g
      using that by (rule d)
  qed
  from t have "execute echo (Some throwing_onSuccess) (JNum 1) initial_state =
       (\<lparr>status = Error,
         trace = [StatusSet Executing, SuccessCallback (JNum 1),
                  ErrorCallback \<lparr>error = \<lparr>request = JObj [], validation = [(''id'', ''Required'')]\<rparr>,
                                 input = JNum 1\<rparr>,
                  StatusSet Error]\<rparr>,
        Fulfilled JUndefined)"
    by (simp add: throwing_onSuccess_def initial_state_def normalize_def assign_def dotted_path_def)
  moreover have "onError throwing_onSuccess = Some (\<lambda>r. Return ())"
    by (simp add: throwing_onSuccess_def)
  ultimately show ?thesis using a b by blast
qed

text \<open>
  C7 as stated fails twice: a ZodError thrown by \<^verbatim>\<open>onSuccess\<close> lands in
  \<^verbatim>\<open>validation\<close> and leaves \<^verbatim>\<open>request\<close> empty, and when \<^verbatim>\<open>onError\<close> throws as
  well the status stays \<^verbatim>\<open>executing\<close>.
\<close>

theorem onSuccess_throw_counterexample:
  "echo (JNum 1) = Return (Fulfilled (JNum 1))
   \<and> execute echo (Some throwing_onSuccess) (JNum 1) initial_state =
       (\<lparr>status = Error,
         trace = [StatusSet Executing, SuccessCallback (JNum 1),
                  ErrorCallback \<lparr>error = \<lparr>request = JObj [], validation = [(''id'', ''Required'')]\<rparr>,
                                 input = JNum 1\<rparr>,
                  StatusSet Error]\<rparr>,
        Fulfilled JUndefined)
   \<and> execute echo (Some throwing_both) (JNum 1) initial_state =
       (\<lparr>status = Executing,
         trace = [StatusSet Executing, SuccessCallback (JNum 1),
                  ErrorCallback \<lparr>error = \<lparr>request = JStr ''render failed'', validation = []\<rparr>,
                                 input = JNum 1\<rparr>]\<rparr>,
        Rejected (Value (JStr ''logger down'')))"
  by (simp add: echo_def execute_unfold execute_resume_def after_await_def call_onSuccess_def
        catch_block_def call_onError_def throwing_onSuccess_def throwing_both_def
        setStatus_def initial_state_def normalize_def assign_def dotted_path_def)

text \<open>
  C8. In every state of the hook, the \<^verbatim>\<open>loading\<close> flag handed to the component is
  true exactly when the \<^verbatim>\<open>status\<close> handed to it is \<^verbatim>\<open>executing\<close>.
\<close>

theorem loading_iff_executing:
  "loading (useAction st) = (view_status (useAction st) = Executing)
   \<and> view_status (useAction st) = status st"
  by (simp add: useAction_def)

text \<open>
  C9. \<^verbatim>\<open>reset\<close> sets the status to \<^verbatim>\<open>idle\<close> from any state; called when the
  status is already \<^verbatim>\<open>idle\<close> it leaves it \<^verbatim>\<open>idle\<close>, and a second call changes
  nothing of the status.
\<close>

theorem reset_sets_idle:
  "status (reset st) = Idle \<and> status (reset (st\<lparr>status := Idle\<rparr>)) = Idle
   \<and> status (reset (reset st)) = status (reset st)"
  by (simp add: reset_def setStatus_def)

end
